theory Spec2Isabelle
  imports Main "HOL-Library.Char_ord" "HOL-Library.List_Lexorder"
begin

section \<open>Files, network and exceptions\<close>

text \<open>
  The local filesystem is a list of (path, content) entries with at most one entry per
  path; it is a list rather than a function because \<^verbatim>\<open>glob\<close> enumerates it.
  Contents are byte strings. The log of network requests issued so far is part of the
  state, so that "no request is made" is a statement about the state.
\<close>

type_synonym path = string
type_synonym bytes = string
type_synonym url = string
type_synonym filesystem = "(path \<times> bytes) list"

datatype exn =
    RequestException
  | OtherException
  | FileNotFoundError
  | ParquetError
  | KeyError
  | AttributeError
  | TimeZoneError
  | DataError
  | IntegrityError
  | BinderError
  | ConnectionError
  | TransactionError
  | TypeError
  | ValidationError

text \<open>\<^verbatim>\<open>Path.exists\<close>, \<^verbatim>\<open>open(p, "wb")\<close>, \<^verbatim>\<open>f.write\<close> and \<^verbatim>\<open>Path.unlink\<close>.\<close>

definition path_exists :: "filesystem \<Rightarrow> path \<Rightarrow> bool" where
  "path_exists fs p = (p \<in> set (map fst fs))"

definition unlink :: "path \<Rightarrow> filesystem \<Rightarrow> filesystem" where
  "unlink p fs = filter (\<lambda>e. fst e \<noteq> p) fs"

definition open_wb :: "path \<Rightarrow> filesystem \<Rightarrow> filesystem" where
  "open_wb p fs = (p, []) # unlink p fs"

definition write_bytes :: "path \<Rightarrow> bytes \<Rightarrow> filesystem \<Rightarrow> filesystem" where
  "write_bytes p c fs = map (\<lambda>e. if fst e = p then (fst e, snd e @ c) else e) fs"

definition read_bytes :: "filesystem \<Rightarrow> path \<Rightarrow> bytes option" where
  "read_bytes fs p = map_of fs p"

text \<open>
  What \<^verbatim>\<open>requests.get(url, stream=True, timeout=30)\<close> gives: an exception
  (\<open>NoReply\<close>), or a status code and a body. The body is the sequence of outcomes of the
  iterations of the streaming loop: a chunk that was received and written, or an exception
  raised there (\<open>RequestException\<close> by \<^verbatim>\<open>iter_content\<close>, another exception by
  \<^verbatim>\<open>f.write\<close>).
\<close>

datatype step = Chunk bytes | Fail exn

datatype reply = NoReply | Reply nat "step list"

section \<open>download\_data.py\<close>

record downloader =
  base_url :: string
  data_dir :: string
  year :: int
  file_extension :: string
  file_name_base :: string

text \<open>\<^verbatim>\<open>NYCTaxiDataDownloader.__init__\<close>\<close>

definition new_downloader :: "string \<Rightarrow> string \<Rightarrow> int \<Rightarrow> downloader" where
  "new_downloader b d y =
     \<lparr>base_url = b, data_dir = d, year = y,
      file_extension = ''.parquet'', file_name_base = ''yellow_tripdata_''\<rparr>"

text \<open>Python's \<^verbatim>\<open>str(n)\<close> and the format \<^verbatim>\<open>{n:02d}\<close> on integers.\<close>

fun digits :: "nat \<Rightarrow> string" where
  "digits n =
     (if n < 10 then [''0123456789'' ! n]
      else digits (n div 10) @ [''0123456789'' ! (n mod 10)])"

declare digits.simps [simp del]

definition str_int :: "int \<Rightarrow> string" where
  "str_int i = (if i < 0 then CHR ''-'' # digits (nat (- i)) else digits (nat i))"

definition fmt_02d :: "int \<Rightarrow> string" where
  "fmt_02d i = (let s = str_int i in replicate (2 - length s) CHR ''0'' @ s)"

definition get_file_name :: "downloader \<Rightarrow> int \<Rightarrow> string" where
  "get_file_name d month =
     file_name_base d @ str_int (year d) @ ''-'' @ fmt_02d month @ file_extension d"

definition get_file_path :: "downloader \<Rightarrow> int \<Rightarrow> path" where
  "get_file_path d month = data_dir d @ ''/'' @ get_file_name d month"

definition file_exists :: "downloader \<Rightarrow> filesystem \<Rightarrow> int \<Rightarrow> bool" where
  "file_exists d fs month = path_exists fs (get_file_path d month)"

text \<open>
  The state the downloader works on, and what it asks of the outside: the remote archive
  and whether a path can be opened for writing (its directory exists, the disk accepts it).
\<close>

record net_state =
  disk :: filesystem
  requests :: "url list"

record remote =
  http_get :: "url \<Rightarrow> reply"
  open_ok :: "path \<Rightarrow> bool"

text \<open>The loop \<^verbatim>\<open>for chunk in r.iter_content(...): f.write(chunk)\<close>.\<close>

fun write_chunks :: "path \<Rightarrow> step list \<Rightarrow> filesystem \<Rightarrow> filesystem \<times> exn option" where
  "write_chunks p [] fs = (fs, None)"
| "write_chunks p (Chunk c # ss) fs = write_chunks p ss (write_bytes p c fs)"
| "write_chunks p (Fail e # ss) fs = (fs, Some e)"

text \<open>The two \<^verbatim>\<open>except\<close> handlers: both delete the file if it exists and return False.\<close>

definition cleanup :: "path \<Rightarrow> net_state \<Rightarrow> net_state" where
  "cleanup p s = (if path_exists (disk s) p then s\<lparr>disk := unlink p (disk s)\<rparr> else s)"

text \<open>
  \<^verbatim>\<open>download_month\<close>. The result is \<open>Some True\<close>, \<open>Some False\<close>, or \<open>None\<close> for Python's
  \<^verbatim>\<open>None\<close>: the branch for a status other than 200 that \<^verbatim>\<open>raise_for_status\<close> accepts
  prints a message and falls off the end of the function.
\<close>

definition download_month :: "remote \<Rightarrow> downloader \<Rightarrow> net_state \<Rightarrow> int \<Rightarrow> net_state \<times> bool option" where
  "download_month rm d s month =
     (if file_exists d (disk s) month then (s, Some True)
      else
        let file_name = get_file_name d month;
            file_path = get_file_path d month;
            u = base_url d @ ''/'' @ file_name;
            s1 = s\<lparr>requests := requests s @ [u]\<rparr>
        in case http_get rm u of
             NoReply \<Rightarrow> (cleanup file_path s1, Some False)
           | Reply status body \<Rightarrow>
               if 400 \<le> status \<and> status < 600 then (cleanup file_path s1, Some False)
               else if status = 200 then
                 (if \<not> open_ok rm file_path then (cleanup file_path s1, Some False)
                  else case write_chunks file_path body (open_wb file_path (disk s1)) of
                         (fs', None) \<Rightarrow> (s1\<lparr>disk := fs'\<rparr>, Some True)
                       | (fs', Some e) \<Rightarrow> (cleanup file_path (s1\<lparr>disk := fs'\<rparr>), Some False))
               else (s1, None))"

text \<open>Python truthiness of the result: \<^verbatim>\<open>None\<close> and \<^verbatim>\<open>False\<close> are falsy.\<close>

definition truthy :: "bool option \<Rightarrow> bool" where
  "truthy r = (r = Some True)"

text \<open>The wall clock, read by \<^verbatim>\<open>datetime.now()\<close>.\<close>

record clock =
  now_year :: int
  now_month :: int

text \<open>The loop of \<^verbatim>\<open>download_all_available\<close>; the result of each call is dropped.\<close>

fun download_loop ::
  "remote \<Rightarrow> downloader \<Rightarrow> int list \<Rightarrow> net_state \<Rightarrow> int list \<Rightarrow> net_state \<times> int list" where
  "download_loop rm d [] s liste_fichiers = (s, liste_fichiers)"
| "download_loop rm d (month # months) s liste_fichiers =
     download_loop rm d months (fst (download_month rm d s month)) (liste_fichiers @ [month])"

definition download_all_available ::
  "remote \<Rightarrow> clock \<Rightarrow> downloader \<Rightarrow> net_state \<Rightarrow> net_state \<times> int list" where
  "download_all_available rm now d s =
     (let current_month = (if year d \<noteq> now_year now then 12 else now_month now);
          month_list = (if current_month \<noteq> 1 then [1..current_month] else [1])
      in download_loop rm d month_list s [])"


text \<open>
  What it means for the fetch of a month to fail: the request raises, the status is an
  error status, the local file cannot be opened, or the streaming loop raises. The bytes
  of a body that streams to its end are \<open>chunks_of\<close>.
\<close>

definition stream_fails :: "step list \<Rightarrow> bool" where
  "stream_fails body = list_ex (\<lambda>x. case x of Fail e \<Rightarrow> True | Chunk c \<Rightarrow> False) body"

definition fetch_fails :: "remote \<Rightarrow> downloader \<Rightarrow> int \<Rightarrow> bool" where
  "fetch_fails rm d month =
     (case http_get rm (base_url d @ ''/'' @ get_file_name d month) of
        NoReply \<Rightarrow> True
      | Reply status body \<Rightarrow>
          (400 \<le> status \<and> status < 600) \<or>
          (status = 200 \<and> (\<not> open_ok rm (get_file_path d month) \<or> stream_fails body)))"

fun chunks_of :: "step list \<Rightarrow> bytes" where
  "chunks_of [] = []"
| "chunks_of (Chunk c # ss) = c @ chunks_of ss"
| "chunks_of (Fail e # ss) = chunks_of ss"

section \<open>Data frames and the transform of import\_to\_postgres.py\<close>

text \<open>
  A cell is null (\<^verbatim>\<open>None\<close>, \<^verbatim>\<open>NaN\<close>, \<^verbatim>\<open>NaT\<close>), a number, a string, a naive timestamp or a
  timestamp anchored to a zone. A row maps column names to cells; a column that a row does
  not mention reads as null there, as in a frame built from records. A frame keeps its
  column list apart from its rows, since an empty frame still has columns.
\<close>

datatype cell = Null | Num int | Str string | Naive int | Zoned int string

type_synonym row = "(string \<times> cell) list"

record dataframe =
  df_columns :: "string list"
  df_rows :: "row list"

definition cell_of :: "row \<Rightarrow> string \<Rightarrow> cell" where
  "cell_of r c = (case map_of r c of None \<Rightarrow> Null | Some v \<Rightarrow> v)"

definition set_cell :: "string \<Rightarrow> cell \<Rightarrow> row \<Rightarrow> row" where
  "set_cell c v r = map (\<lambda>e. if fst e = c then (c, v) else e) r"

text \<open>
  What the importers ask of the outside: the Parquet decoder, the time zone database
  (whether a wall-clock time exists exactly once in America/New\_York), the checks a table
  applies to a row on a bulk load (types, constraints), and whether a statement fails for a
  reason of the connection. Statements are named with the file they are executed for.
\<close>

datatype stmt = Copy | LogInsert | DuckInsert | DuckLog | DuckCommit

record env =
  decode :: "bytes \<Rightarrow> dataframe option"
  localizable :: "int \<Rightarrow> bool"
  accepts :: "row \<Rightarrow> bool"
  fault :: "stmt \<Rightarrow> string \<Rightarrow> bool"

text \<open>\<^verbatim>\<open>pd.read_parquet(file_path)\<close>\<close>

definition read_parquet :: "env \<Rightarrow> filesystem \<Rightarrow> path \<Rightarrow> exn + dataframe" where
  "read_parquet ev fs file_path =
     (case read_bytes fs file_path of
        None \<Rightarrow> Inl FileNotFoundError
      | Some b \<Rightarrow> (case decode ev b of None \<Rightarrow> Inl ParquetError | Some df \<Rightarrow> Inr df))"

definition column_mapping :: "(string \<times> string) list" where
  "column_mapping =
     [(''VendorID'', ''vendor_id''),
      (''tpep_pickup_datetime'', ''tpep_pickup_datetime''),
      (''tpep_dropoff_datetime'', ''tpep_dropoff_datetime''),
      (''passenger_count'', ''passenger_count''),
      (''trip_distance'', ''trip_distance''),
      (''RatecodeID'', ''ratecode_id''),
      (''store_and_fwd_flag'', ''store_and_fwd_flag''),
      (''PULocationID'', ''pu_location_id''),
      (''DOLocationID'', ''do_location_id''),
      (''payment_type'', ''payment_type''),
      (''fare_amount'', ''fare_amount''),
      (''extra'', ''extra''),
      (''mta_tax'', ''mta_tax''),
      (''tip_amount'', ''tip_amount''),
      (''tolls_amount'', ''tolls_amount''),
      (''improvement_surcharge'', ''improvement_surcharge''),
      (''total_amount'', ''total_amount''),
      (''congestion_surcharge'', ''congestion_surcharge''),
      (''Airport_fee'', ''airport_fee''),
      (''cbd_congestion_fee'', ''cbd_congestion_fee'')]"

text \<open>\<^verbatim>\<open>df.rename(columns=column_mapping)\<close>: a name outside the mapping is kept.\<close>

definition rename_column :: "string \<Rightarrow> string" where
  "rename_column c = (case map_of column_mapping c of None \<Rightarrow> c | Some c' \<Rightarrow> c')"

definition rename :: "dataframe \<Rightarrow> dataframe" where
  "rename df =
     \<lparr>df_columns = map rename_column (df_columns df),
      df_rows = map (map (\<lambda>e. (rename_column (fst e), snd e))) (df_rows df)\<rparr>"

text \<open>\<^verbatim>\<open>df.dropna(subset=cols)\<close>: KeyError for a column the frame does not have.\<close>

definition dropna :: "string list \<Rightarrow> dataframe \<Rightarrow> exn + dataframe" where
  "dropna cols df =
     (if \<not> list_all (\<lambda>c. c \<in> set (df_columns df)) cols then Inl KeyError
      else Inr (df\<lparr>df_rows := filter (\<lambda>r. list_all (\<lambda>c. cell_of r c \<noteq> Null) cols) (df_rows df)\<rparr>))"

text \<open>
  \<^verbatim>\<open>df[c] = df[c].dt.tz_localize("America/New_York")\<close>: a naive timestamp is anchored
  to the zone when that wall-clock time exists exactly once there, and the call raises
  otherwise; a null stays null; a column that is already zoned or holds no timestamps
  raises.
\<close>

definition localize_cell :: "env \<Rightarrow> cell \<Rightarrow> exn + cell" where
  "localize_cell ev v =
     (case v of
        Naive t \<Rightarrow> if localizable ev t then Inr (Zoned t ''America/New_York'') else Inl TimeZoneError
      | Null \<Rightarrow> Inr Null
      | Zoned t z \<Rightarrow> Inl TypeError
      | Num n \<Rightarrow> Inl AttributeError
      | Str s \<Rightarrow> Inl AttributeError)"

fun tz_localize :: "env \<Rightarrow> string \<Rightarrow> row list \<Rightarrow> exn + row list" where
  "tz_localize ev c [] = Inr []"
| "tz_localize ev c (r # rs) =
     (case localize_cell ev (cell_of r c) of
        Inl e \<Rightarrow> Inl e
      | Inr v \<Rightarrow> (case tz_localize ev c rs of
                    Inl e \<Rightarrow> Inl e
                  | Inr rs' \<Rightarrow> Inr (set_cell c v r # rs')))"

definition clean_df :: "env \<Rightarrow> filesystem \<Rightarrow> path \<Rightarrow> exn + dataframe" where
  "clean_df ev fs file_path =
     (case read_parquet ev fs file_path of
        Inl e \<Rightarrow> Inl e
      | Inr df \<Rightarrow>
          (case dropna [''tpep_pickup_datetime'', ''tpep_dropoff_datetime''] (rename df) of
             Inl e \<Rightarrow> Inl e
           | Inr df1 \<Rightarrow>
               (case tz_localize ev ''tpep_pickup_datetime'' (df_rows df1) of
                  Inl e \<Rightarrow> Inl e
                | Inr rs1 \<Rightarrow>
                    (case tz_localize ev ''tpep_dropoff_datetime'' rs1 of
                       Inl e \<Rightarrow> Inl e
                     | Inr rs2 \<Rightarrow> Inr (df1\<lparr>df_rows := rs2\<rparr>)))))"

section \<open>import\_to\_postgres.py\<close>

text \<open>
  The two tables. A table is a list of rows: a bag, the order standing for nothing. The
  surrogate key of a trip row and the import date of a ledger row carry no information the
  import path reads, and are left out. A ledger row is (file\_name, rows\_imported).
\<close>

record pg_db =
  yellow_taxi_trips :: "row list"
  import_log :: "(string \<times> int) list"

text \<open>\<^verbatim>\<open>init_db\<close>: \<^verbatim>\<open>create_all\<close> creates the missing tables and keeps the others.\<close>

definition init_db :: "pg_db \<Rightarrow> pg_db" where
  "init_db db = db"

text \<open>\<^verbatim>\<open>Path.name\<close>, \<^verbatim>\<open>str.endswith\<close> and \<^verbatim>\<open>sorted(dir.glob("*.parquet"))\<close>.\<close>

definition path_name :: "path \<Rightarrow> string" where
  "path_name p = rev (takeWhile (\<lambda>c. c \<noteq> CHR ''/'') (rev p))"

definition endswith :: "string \<Rightarrow> string \<Rightarrow> bool" where
  "endswith s suf = (length suf \<le> length s \<and> drop (length s - length suf) s = suf)"

definition glob_parquet :: "filesystem \<Rightarrow> path \<Rightarrow> path list" where
  "glob_parquet fs dir =
     filter (\<lambda>p. p = dir @ ''/'' @ path_name p \<and> endswith (path_name p) ''.parquet'')
       (map fst fs)"

definition target_cols :: "string list" where
  "target_cols =
     [''vendor_id'', ''tpep_pickup_datetime'', ''tpep_dropoff_datetime'', ''passenger_count'',
      ''trip_distance'', ''ratecode_id'', ''store_and_fwd_flag'', ''pu_location_id'',
      ''do_location_id'', ''payment_type'', ''fare_amount'', ''extra'', ''mta_tax'',
      ''tip_amount'', ''tolls_amount'', ''improvement_surcharge'', ''total_amount'',
      ''congestion_surcharge'', ''airport_fee'', ''cbd_congestion_fee'']"

text \<open>\<^verbatim>\<open>df.empty\<close> and \<^verbatim>\<open>df[cols]\<close>.\<close>

definition df_empty :: "dataframe \<Rightarrow> bool" where
  "df_empty df = (df_rows df = [] \<or> df_columns df = [])"

definition project :: "string list \<Rightarrow> dataframe \<Rightarrow> dataframe" where
  "project cols df =
     \<lparr>df_columns = cols, df_rows = map (\<lambda>r. map (\<lambda>c. (c, cell_of r c)) cols) (df_rows df)\<rparr>"

text \<open>
  \<^verbatim>\<open>cur.copy_expert(copy_sql, buf); raw_conn.commit()\<close>: all the rows are stored, or the call
  raises and, the connection being closed without a commit, none is.
\<close>

definition copy_expert :: "env \<Rightarrow> string \<Rightarrow> row list \<Rightarrow> pg_db \<Rightarrow> exn + pg_db" where
  "copy_expert ev file_name rs db =
     (if fault ev Copy file_name then Inl ConnectionError
      else if \<not> list_all (accepts ev) rs then Inl DataError
      else Inr (db\<lparr>yellow_taxi_trips := yellow_taxi_trips db @ rs\<rparr>))"

text \<open>\<^verbatim>\<open>import_parquet_copy\<close>: the number of rows, or \<open>None\<close> for Python's \<^verbatim>\<open>None\<close>.\<close>

definition import_parquet_copy :: "env \<Rightarrow> filesystem \<Rightarrow> pg_db \<Rightarrow> path \<Rightarrow> pg_db \<times> int option" where
  "import_parquet_copy ev fs db file_path =
     (case clean_df ev fs file_path of
        Inl e \<Rightarrow> (db, None)
      | Inr df \<Rightarrow>
          if df_empty df then (db, Some 0)
          else
            let cols = filter (\<lambda>c. c \<in> set (df_columns df)) target_cols;
                df' = project cols df
            in case copy_expert ev (path_name file_path) (df_rows df') db of
                 Inl e \<Rightarrow> (db, None)
               | Inr db' \<Rightarrow> (db', Some (int (length (df_rows df')))))"

text \<open>
  \<^verbatim>\<open>log_import\<close>: one row is added to the ledger in a session of its own; the primary key
  on the file name rejects a second row for one name.
\<close>

definition log_import :: "env \<Rightarrow> pg_db \<Rightarrow> string \<Rightarrow> int \<Rightarrow> exn + pg_db" where
  "log_import ev db file_name rows_imported =
     (if fault ev LogInsert file_name then Inl ConnectionError
      else if file_name \<in> set (map fst (import_log db)) then Inl IntegrityError
      else Inr (db\<lparr>import_log := import_log db @ [(file_name, rows_imported)]\<rparr>))"

text \<open>
  The loop of \<^verbatim>\<open>main\<close> over the futures. A worker runs \<^verbatim>\<open>import_parquet_copy\<close> and the main
  thread logs each result as it completes. The import of a file reads and writes the trip
  table only and never the ledger, and \<^verbatim>\<open>log_import\<close> the ledger only, so every
  interleaving leaves the tables that this sequential run leaves, up to the order of rows.
\<close>

fun import_files ::
  "env \<Rightarrow> filesystem \<Rightarrow> path list \<Rightarrow> pg_db \<Rightarrow> int \<Rightarrow> int \<Rightarrow> pg_db \<times> int \<times> int" where
  "import_files ev fs [] db total_rows ok = (db, total_rows, ok)"
| "import_files ev fs (fpath # files) db total_rows ok =
     (case import_parquet_copy ev fs db fpath of
        (db1, None) \<Rightarrow> import_files ev fs files db1 total_rows ok
      | (db1, Some n) \<Rightarrow>
          if n \<ge> 0 then
            (case log_import ev db1 (path_name fpath) n of
               Inl e \<Rightarrow> import_files ev fs files db1 total_rows ok
             | Inr db2 \<Rightarrow> import_files ev fs files db2 (total_rows + n) (ok + 1))
          else import_files ev fs files db1 total_rows ok)"

text \<open>
  \<^verbatim>\<open>main\<close> of import\_to\_postgres.py: the dictionary of the two totals, or \<open>None\<close> for
  Python's \<^verbatim>\<open>None\<close> when the directory holds no Parquet file.
\<close>

definition import_to_postgres_main ::
  "env \<Rightarrow> path \<Rightarrow> filesystem \<Rightarrow> pg_db \<Rightarrow> pg_db \<times> (string \<times> int) list option" where
  "import_to_postgres_main ev cwd fs db =
     (let db0 = init_db db;
          parquet_dir = cwd @ ''/data/raw'';
          files = sort (glob_parquet fs parquet_dir)
      in if files = [] then (db0, None)
         else case import_files ev fs files db0 0 0 of
                (db', total_rows, ok) \<Rightarrow>
                  (db', Some [(''files_imported'', ok), (''total_rows'', total_rows)]))"

section \<open>import\_to\_duckdb.py\<close>

text \<open>
  The DuckDB connection: the committed tables and, inside a transaction, the working copy
  that statements read and write. \<^verbatim>\<open>begin\<close> starts from the committed tables,
  \<^verbatim>\<open>commit\<close> makes the working copy the committed one, \<^verbatim>\<open>rollback\<close> drops it.
\<close>

record duck_db =
  duck_trips :: "row list"
  duck_log :: "(string \<times> int) list"

record duck_conn =
  committed :: duck_db
  txn :: "duck_db option"

definition view :: "duck_conn \<Rightarrow> duck_db" where
  "view conn = (case txn conn of None \<Rightarrow> committed conn | Some t \<Rightarrow> t)"

definition execute :: "(duck_db \<Rightarrow> duck_db) \<Rightarrow> duck_conn \<Rightarrow> duck_conn" where
  "execute f conn =
     (case txn conn of
        None \<Rightarrow> conn\<lparr>committed := f (committed conn)\<rparr>
      | Some t \<Rightarrow> conn\<lparr>txn := Some (f t)\<rparr>)"

definition begin_txn :: "duck_conn \<Rightarrow> exn + duck_conn" where
  "begin_txn conn =
     (case txn conn of
        None \<Rightarrow> Inr (conn\<lparr>txn := Some (committed conn)\<rparr>)
      | Some t \<Rightarrow> Inl TransactionError)"

definition commit :: "env \<Rightarrow> string \<Rightarrow> duck_conn \<Rightarrow> exn + duck_conn" where
  "commit ev file_name conn =
     (if fault ev DuckCommit file_name then Inl ConnectionError
      else case txn conn of
             None \<Rightarrow> Inl TransactionError
           | Some t \<Rightarrow> Inr (conn\<lparr>committed := t, txn := None\<rparr>))"

definition rollback :: "duck_conn \<Rightarrow> duck_conn" where
  "rollback conn = conn\<lparr>txn := None\<rparr>"

text \<open>The columns of \<^verbatim>\<open>CREATE TABLE yellow_taxi_trips\<close>, in order.\<close>

definition duck_columns :: "string list" where
  "duck_columns =
     [''VendorID'', ''tpep_pickup_datetime'', ''tpep_dropoff_datetime'', ''passenger_count'',
      ''trip_distance'', ''RatecodeID'', ''store_and_fwd_flag'', ''PULocationID'',
      ''DOLocationID'', ''payment_type'', ''fare_amount'', ''extra'', ''mta_tax'',
      ''tip_amount'', ''tolls_amount'', ''improvement_surcharge'', ''total_amount'',
      ''congestion_surcharge'', ''Airport_fee'', ''cdb_congestion_fee'']"

text \<open>\<^verbatim>\<open>DuckDBImporter.__init__\<close>: both tables are created if they do not exist.\<close>

definition new_importer :: "duck_db \<Rightarrow> duck_conn" where
  "new_importer db = \<lparr>committed = db, txn = None\<rparr>"

definition is_file_imported :: "duck_conn \<Rightarrow> string \<Rightarrow> bool" where
  "is_file_imported conn file_name =
     (length (filter (\<lambda>e. fst e = file_name) (duck_log (view conn))) > 0)"

text \<open>
  \<^verbatim>\<open>INSERT INTO yellow_taxi_trips SELECT * FROM read_parquet(path)\<close>: the values of every
  row of the file, in the file's column order, are stored under the table's columns by
  position; the statement raises when the file cannot be read, when the number of columns
  differs from the table's, or when the table refuses a row. No row is filtered.
\<close>

definition insert_from_parquet :: "env \<Rightarrow> filesystem \<Rightarrow> path \<Rightarrow> duck_conn \<Rightarrow> exn + duck_conn" where
  "insert_from_parquet ev fs file_path conn =
     (if fault ev DuckInsert (path_name file_path) then Inl ConnectionError
      else case read_parquet ev fs file_path of
             Inl e \<Rightarrow> Inl e
           | Inr df \<Rightarrow>
               let rs = map (\<lambda>r. zip duck_columns (map (cell_of r) (df_columns df))) (df_rows df)
               in if length (df_columns df) \<noteq> length duck_columns then Inl BinderError
                  else if \<not> list_all (accepts ev) rs then Inl DataError
                  else Inr (execute (\<lambda>db. db\<lparr>duck_trips := duck_trips db @ rs\<rparr>) conn))"

text \<open>\<^verbatim>\<open>INSERT INTO import_log (file_name, rows_imported) VALUES (?, ?)\<close>\<close>

definition insert_log :: "env \<Rightarrow> string \<Rightarrow> int \<Rightarrow> duck_conn \<Rightarrow> exn + duck_conn" where
  "insert_log ev file_name rows_imported conn =
     (if fault ev DuckLog file_name then Inl ConnectionError
      else if file_name \<in> set (map fst (duck_log (view conn))) then Inl IntegrityError
      else Inr (execute (\<lambda>db. db\<lparr>duck_log := duck_log db @ [(file_name, rows_imported)]\<rparr>) conn))"

definition import_parquet :: "env \<Rightarrow> filesystem \<Rightarrow> duck_conn \<Rightarrow> path \<Rightarrow> duck_conn \<times> bool" where
  "import_parquet ev fs conn file_path =
     (let filename = path_name file_path in
      if is_file_imported conn filename then (conn, True)
      else
        case begin_txn conn of
          Inl e \<Rightarrow> (rollback conn, False)
        | Inr c1 \<Rightarrow>
            let count_before = int (length (duck_trips (view c1))) in
            case insert_from_parquet ev fs file_path c1 of
              Inl e \<Rightarrow> (rollback c1, False)
            | Inr c2 \<Rightarrow>
                let count_after = int (length (duck_trips (view c2)));
                    rows_imported = count_after - count_before
                in case insert_log ev filename rows_imported c2 of
                     Inl e \<Rightarrow> (rollback c2, False)
                   | Inr c3 \<Rightarrow>
                       (case commit ev filename c3 of
                          Inl e \<Rightarrow> (rollback c3, False)
                        | Inr c4 \<Rightarrow> (c4, True)))"

fun import_all_loop ::
  "env \<Rightarrow> filesystem \<Rightarrow> path list \<Rightarrow> duck_conn \<Rightarrow> int \<Rightarrow> duck_conn \<times> int" where
  "import_all_loop ev fs [] conn imported_count = (conn, imported_count)"
| "import_all_loop ev fs (file_path # parquet_files) conn imported_count =
     (case import_parquet ev fs conn file_path of
        (conn', True) \<Rightarrow> import_all_loop ev fs parquet_files conn' (imported_count + 1)
      | (conn', False) \<Rightarrow> import_all_loop ev fs parquet_files conn' imported_count)"

definition import_all_parquet :: "env \<Rightarrow> filesystem \<Rightarrow> duck_conn \<Rightarrow> path \<Rightarrow> duck_conn \<times> int" where
  "import_all_parquet ev fs conn dir =
     (let parquet_files = sort (glob_parquet fs dir)
      in import_all_loop ev fs parquet_files conn 0)"

section \<open>services.py and schemas.py\<close>

text \<open>The Python values that reach the fields of the response.\<close>

datatype pyval = PyNone | PyInt int

text \<open>
  \<^verbatim>\<open>main\<close> of download\_data.py. The test \<^verbatim>\<open>not data_dir.exists\<close> is on the bound method,
  which is truthy, so the directory is never created. The function has no
  \<^verbatim>\<open>return\<close> statement: its value is \<^verbatim>\<open>None\<close>.
\<close>

definition download_data_main :: "remote \<Rightarrow> clock \<Rightarrow> path \<Rightarrow> net_state \<Rightarrow> net_state \<times> pyval" where
  "download_data_main rm now cwd s =
     (let dir = cwd @ ''/data/raw'';
          base = ''https://d37ci6vzurychx.cloudfront.net/trip-data'';
          classe_nyctaxi_download = new_downloader base dir (now_year now);
          r = download_all_available rm now classe_nyctaxi_download s
      in (fst r, PyNone))"

text \<open>
  \<^verbatim>\<open>PipelineResponse\<close>: a model that validates its fields when it is built. The status is
  one of three literals and the three counts are integers; \<^verbatim>\<open>None\<close> is not an integer.
\<close>

record PipelineResponse =
  status :: string
  downloaded :: int
  imported_files :: int
  imported_rows :: int

definition validate_int :: "pyval \<Rightarrow> exn + int" where
  "validate_int v = (case v of PyInt n \<Rightarrow> Inr n | PyNone \<Rightarrow> Inl ValidationError)"

definition new_PipelineResponse :: "string \<Rightarrow> pyval \<Rightarrow> pyval \<Rightarrow> pyval \<Rightarrow> exn + PipelineResponse" where
  "new_PipelineResponse st d f r =
     (if st \<notin> set [''started'', ''done'', ''error''] then Inl ValidationError
      else case validate_int d of
             Inl e \<Rightarrow> Inl e
           | Inr d' \<Rightarrow>
               (case validate_int f of
                  Inl e \<Rightarrow> Inl e
                | Inr f' \<Rightarrow>
                    (case validate_int r of
                       Inl e \<Rightarrow> Inl e
                     | Inr r' \<Rightarrow>
                         Inr \<lparr>status = st, downloaded = d', imported_files = f',
                              imported_rows = r'\<rparr>)))"

text \<open>Subscripting the result of the import: TypeError on \<^verbatim>\<open>None\<close>, KeyError on a missing key.\<close>

definition subscript :: "(string \<times> int) list option \<Rightarrow> string \<Rightarrow> exn + pyval" where
  "subscript d k =
     (case d of
        None \<Rightarrow> Inl TypeError
      | Some kv \<Rightarrow> (case map_of kv k of None \<Rightarrow> Inl KeyError | Some v \<Rightarrow> Inr (PyInt v)))"

text \<open>
  \<^verbatim>\<open>PipelineService.run_pipeline\<close>: the state is the downloader's and the database; the
  result is the response, or the exception that leaves the function.
\<close>

definition run_pipeline ::
  "env \<Rightarrow> remote \<Rightarrow> clock \<Rightarrow> path \<Rightarrow> net_state \<times> pg_db \<Rightarrow>
     (net_state \<times> pg_db) \<times> (exn + PipelineResponse)" where
  "run_pipeline ev rm now cwd w =
     (let db0 = init_db (snd w);
          dl = download_data_main rm now cwd (fst w);
          downloaded_files = snd dl;
          im = import_to_postgres_main ev cwd (disk (fst dl)) db0;
          imported_stats = snd im
      in ((fst dl, fst im),
          case subscript imported_stats ''files_imported'' of
            Inl e \<Rightarrow> Inl e
          | Inr f \<Rightarrow>
              (case subscript imported_stats ''total_rows'' of
                 Inl e \<Rightarrow> Inl e
               | Inr r \<Rightarrow> new_PipelineResponse ''done'' downloaded_files f r)))"

section \<open>Example inputs\<close>

text \<open>
  A directory with one monthly file of one trip, a file whose only row has no pickup
  timestamp, and an outside world in which every decoding, localisation and statement
  succeeds.
\<close>

definition jan_path :: path where
  "jan_path = ''/app/data/raw/yellow_tripdata_2025-01.parquet''"

definition feb_path :: path where
  "feb_path = ''/app/data/raw/yellow_tripdata_2025-02.parquet''"

definition one_trip :: dataframe where
  "one_trip =
     \<lparr>df_columns = [''VendorID'', ''tpep_pickup_datetime'', ''tpep_dropoff_datetime''],
      df_rows = [[(''VendorID'', Num 1), (''tpep_pickup_datetime'', Naive 10),
                  (''tpep_dropoff_datetime'', Naive 20)]]\<rparr>"

definition no_pickup :: dataframe where
  "no_pickup =
     \<lparr>df_columns = map fst column_mapping,
      df_rows = [[(''VendorID'', Num 2), (''tpep_dropoff_datetime'', Naive 30)]]\<rparr>"

definition fair_env :: env where
  "fair_env =
     \<lparr>decode = (\<lambda>b. if b = ''one'' then Some one_trip
                     else if b = ''nopickup'' then Some no_pickup else None),
      localizable = (\<lambda>t. True),
      accepts = (\<lambda>r. True),
      fault = (\<lambda>s f. False)\<rparr>"

definition jan_only :: filesystem where
  "jan_only = [(jan_path, ''one'')]"

definition stored_trip :: row where
  "stored_trip =
     [(''vendor_id'', Num 1), (''tpep_pickup_datetime'', Zoned 10 ''America/New_York''),
      (''tpep_dropoff_datetime'', Zoned 20 ''America/New_York'')]"

section \<open>The timestamp invariant\<close>

text \<open>A row with both its pickup and its dropoff timestamp.\<close>

definition has_timestamps :: "row \<Rightarrow> bool" where
  "has_timestamps r =
     (cell_of r ''tpep_pickup_datetime'' \<noteq> Null \<and> cell_of r ''tpep_dropoff_datetime'' \<noteq> Null)"

section \<open>Properties of the downloader\<close>

lemma unlink_absent: "\<not> path_exists fs p \<Longrightarrow> unlink p fs = fs"
  by (induction fs) (auto simp: unlink_def path_exists_def)

lemma path_exists_unlink: "path_exists (unlink p fs) q = (q \<noteq> p \<and> path_exists fs q)"
  by (induction fs) (auto simp: unlink_def path_exists_def)

lemma path_exists_write_bytes: "path_exists (write_bytes p c fs) q = path_exists fs q"
  by (induction fs) (auto simp: write_bytes_def path_exists_def)

lemma unlink_write_bytes: "unlink p (write_bytes p c fs) = unlink p fs"
  by (induction fs) (auto simp: write_bytes_def unlink_def)

lemma path_exists_open_wb: "path_exists (open_wb p fs) q = (q = p \<or> path_exists fs q)"
  by (auto simp: open_wb_def path_exists_def unlink_def)

lemma unlink_open_wb: "unlink p (open_wb p fs) = unlink p fs"
  by (simp add: open_wb_def unlink_def)

lemma path_exists_write_chunks:
  "path_exists (fst (write_chunks p ss fs)) q = path_exists fs q"
  by (induction p ss fs rule: write_chunks.induct) (simp_all add: path_exists_write_bytes)

lemma unlink_write_chunks: "unlink p (fst (write_chunks p ss fs)) = unlink p fs"
  by (induction p ss fs rule: write_chunks.induct) (simp_all add: unlink_write_bytes)

lemma write_chunks_error: "(snd (write_chunks p ss fs) \<noteq> None) = stream_fails ss"
  by (induction p ss fs rule: write_chunks.induct) (simp_all add: stream_fails_def)

lemma cleanup_disk:
  "disk (cleanup p s) = unlink p (disk s)"
  by (simp add: cleanup_def unlink_absent)

lemma cleanup_requests: "requests (cleanup p s) = requests s"
  by (simp add: cleanup_def)

lemma download_month_cases:
  assumes "\<not> file_exists d (disk s) m"
  shows "fetch_fails rm d m \<Longrightarrow>
           download_month rm d s m =
             (s\<lparr>requests := requests s @ [base_url d @ ''/'' @ get_file_name d m]\<rparr>, Some False)"
proof -
  let ?p = "get_file_path d m"
  assume ff: "fetch_fails rm d m"
  have ne: "\<not> path_exists (disk s) ?p" using assms by (simp add: file_exists_def)
  have u: "unlink ?p (disk s) = disk s" using ne by (rule unlink_absent)
  have c1: "\<And>r. cleanup ?p (s\<lparr>requests := r\<rparr>) = s\<lparr>requests := r\<rparr>"
    using ne by (simp add: cleanup_def)
  have c2: "\<And>r ss. cleanup ?p (s\<lparr>requests := r, disk := fst (write_chunks ?p ss (open_wb ?p (disk s)))\<rparr>)
              = s\<lparr>requests := r\<rparr>"
    by (simp add: cleanup_def path_exists_write_chunks path_exists_open_wb
        unlink_write_chunks unlink_open_wb u)
  show ?thesis
  proof (cases "http_get rm (base_url d @ ''/'' @ get_file_name d m)")
    case NoReply
    then show ?thesis using assms c1 by (simp add: download_month_def Let_def)
  next
    case (Reply st body)
    show ?thesis
    proof (cases "400 \<le> st \<and> st < 600")
      case True
      then show ?thesis using assms c1 Reply by (simp add: download_month_def Let_def)
    next
      case False
      then have st: "st = 200" and bad: "\<not> open_ok rm ?p \<or> stream_fails body"
        using ff Reply by (auto simp: fetch_fails_def)
      show ?thesis
      proof (cases "open_ok rm ?p")
        case False
        then show ?thesis using assms c1 Reply st by (simp add: download_month_def Let_def)
      next
        case True
        then have sf: "stream_fails body" using bad by simp
        let ?w = "write_chunks ?p body (open_wb ?p (disk s))"
        obtain e where "snd ?w = Some e"
          using sf write_chunks_error[of ?p body "open_wb ?p (disk s)"] by auto
        then obtain fs' where wc: "?w = (fs', Some e)" by (cases ?w) simp
        have c3: "\<And>r. cleanup ?p (s\<lparr>requests := r, disk := fs'\<rparr>) = s\<lparr>requests := r\<rparr>"
          using c2[where ss=body] wc by simp
        show ?thesis using assms Reply st True
          by (simp add: download_month_def Let_def wc c3)
      qed
    qed
  qed
qed


lemma map_of_write_bytes:
  "map_of (write_bytes p c fs) q =
     (if q = p then map_option (\<lambda>b. b @ c) (map_of fs p) else map_of fs q)"
  by (induction fs) (auto simp: write_bytes_def)

lemma read_write_chunks:
  "\<not> stream_fails ss \<Longrightarrow>
     read_bytes (fst (write_chunks p ss fs)) p =
       map_option (\<lambda>b. b @ chunks_of ss) (read_bytes fs p)"
proof (induction p ss fs rule: write_chunks.induct)
  case (1 p fs)
  then show ?case by (simp add: read_bytes_def option.map_ident)
next
  case (2 p c ss fs)
  then show ?case
    by (simp add: read_bytes_def stream_fails_def map_of_write_bytes option.map_comp comp_def)
next
  case (3 p e ss fs)
  then show ?case by (simp add: stream_fails_def)
qed

lemma read_open_wb: "read_bytes (open_wb p fs) p = Some []"
  by (simp add: read_bytes_def open_wb_def)

lemma download_month_present:
  "file_exists d (disk s) m \<Longrightarrow> download_month rm d s m = (s, Some True)"
  by (simp add: download_month_def)

lemma download_month_other_status:
  assumes "\<not> file_exists d (disk s) m"
    and "http_get rm (base_url d @ ''/'' @ get_file_name d m) = Reply st body"
    and "\<not> (400 \<le> st \<and> st < 600)" and "st \<noteq> 200"
  shows "download_month rm d s m =
           (s\<lparr>requests := requests s @ [base_url d @ ''/'' @ get_file_name d m]\<rparr>, None)"
  using assms by (simp add: download_month_def Let_def)

lemma download_month_complete:
  assumes "\<not> file_exists d (disk s) m"
    and "http_get rm (base_url d @ ''/'' @ get_file_name d m) = Reply 200 body"
    and "open_ok rm (get_file_path d m)" and "\<not> stream_fails body"
  shows "download_month rm d s m =
           (s\<lparr>requests := requests s @ [base_url d @ ''/'' @ get_file_name d m],
              disk := fst (write_chunks (get_file_path d m) body
                             (open_wb (get_file_path d m) (disk s)))\<rparr>, Some True)"
proof -
  let ?p = "get_file_path d m"
  let ?w = "write_chunks ?p body (open_wb ?p (disk s))"
  have "snd ?w = None"
    using assms(4) write_chunks_error[of ?p body "open_wb ?p (disk s)"] by auto
  then obtain fs' where wc: "?w = (fs', None)" by (cases ?w) simp
  show ?thesis using assms by (simp add: download_month_def Let_def wc)
qed

lemma fetch_outcomes:
  "fetch_fails rm d m \<or>
   (\<exists>st body. http_get rm (base_url d @ ''/'' @ get_file_name d m) = Reply st body \<and>
       \<not> (400 \<le> st \<and> st < 600) \<and> st \<noteq> 200) \<or>
   (\<exists>body. http_get rm (base_url d @ ''/'' @ get_file_name d m) = Reply 200 body \<and>
       open_ok rm (get_file_path d m) \<and> \<not> stream_fails body)"
  by (cases "http_get rm (base_url d @ ''/'' @ get_file_name d m)")
     (auto simp: fetch_fails_def)

text \<open>
  Claim C5. Whatever way the fetch of a month fails (the request raises, the status is an
  error status, the file cannot be opened, the streaming loop raises after any number of
  chunks), \<^verbatim>\<open>download_month\<close> returns False. Whenever its result is not truthy, no file
  exists at the month's path afterwards and the filesystem is what it was before the call.
  A file that the call created holds the whole body of a reply with status 200 that
  streamed to its end, so no truncated file is left for \<^verbatim>\<open>file_exists\<close> to find.
\<close>

theorem download_month_failure_cleanup:
  assumes "download_month rm d s m = (s', r)"
  shows "(\<not> file_exists d (disk s) m \<and> fetch_fails rm d m \<longrightarrow> r = Some False) \<and>
         (\<not> truthy r \<longrightarrow> \<not> file_exists d (disk s') m \<and> disk s' = disk s) \<and>
         (\<not> file_exists d (disk s) m \<and> file_exists d (disk s') m \<longrightarrow>
            (\<exists>body. http_get rm (base_url d @ ''/'' @ get_file_name d m) = Reply 200 body \<and>
               \<not> stream_fails body \<and>
               read_bytes (disk s') (get_file_path d m) = Some (chunks_of body)))"
proof (cases "file_exists d (disk s) m")
  case True
  then show ?thesis using assms by (simp add: download_month_present truthy_def)
next
  case False
  let ?u = "base_url d @ ''/'' @ get_file_name d m"
  let ?p = "get_file_path d m"
  consider (fails) "fetch_fails rm d m"
    | (other) st body where "http_get rm ?u = Reply st body"
        "\<not> (400 \<le> st \<and> st < 600)" "st \<noteq> 200"
    | (ok) body where "http_get rm ?u = Reply 200 body" "open_ok rm ?p" "\<not> stream_fails body"
    using fetch_outcomes[of rm d m] by blast
  then show ?thesis
  proof cases
    case fails
    then show ?thesis using assms False download_month_cases[OF False fails]
      by (auto simp: truthy_def)
  next
    case other
    have nf: "\<not> fetch_fails rm d m" using other by (simp add: fetch_fails_def)
    show ?thesis using assms False nf download_month_other_status[OF False other]
      by (auto simp: truthy_def)
  next
    case ok
    have nf: "\<not> fetch_fails rm d m" using ok by (simp add: fetch_fails_def)
    have rd: "read_bytes (fst (write_chunks ?p body (open_wb ?p (disk s)))) ?p = Some (chunks_of body)"
      using read_write_chunks[OF ok(3), of ?p "open_wb ?p (disk s)"] by (simp add: read_open_wb)
    show ?thesis using assms False nf ok download_month_complete[OF False ok] rd
      by (auto simp: truthy_def)
  qed
qed

text \<open>
  Claim C6. When the month's file exists, \<^verbatim>\<open>download_month\<close> returns True and leaves
  the state, request log included, as it was: no request is issued. Hence, when the file
  was absent and a first call fetched it, that call issued exactly one request, and a second
  call returns True from the same state: one request in all, and the same local file after
  either call.
\<close>

theorem download_month_idempotent:
  "(file_exists d (disk s) m \<longrightarrow> download_month rm d s m = (s, Some True)) \<and>
   (\<not> file_exists d (disk s) m \<and> download_month rm d s m = (s1, Some True) \<longrightarrow>
      requests s1 = requests s @ [base_url d @ ''/'' @ get_file_name d m] \<and>
      download_month rm d s1 m = (s1, Some True))"
proof (intro conjI impI)
  assume "file_exists d (disk s) m"
  then show "download_month rm d s m = (s, Some True)" by (rule download_month_present)
next
  assume a: "\<not> file_exists d (disk s) m \<and> download_month rm d s m = (s1, Some True)"
  then have ne: "\<not> file_exists d (disk s) m" and dm: "download_month rm d s m = (s1, Some True)"
    by simp_all
  let ?u = "base_url d @ ''/'' @ get_file_name d m"
  let ?p = "get_file_path d m"
  consider (fails) "fetch_fails rm d m"
    | (other) st body where "http_get rm ?u = Reply st body"
        "\<not> (400 \<le> st \<and> st < 600)" "st \<noteq> 200"
    | (ok) body where "http_get rm ?u = Reply 200 body" "open_ok rm ?p" "\<not> stream_fails body"
    using fetch_outcomes[of rm d m] by blast
  then have s1: "requests s1 = requests s @ [?u] \<and> file_exists d (disk s1) m"
  proof cases
    case fails
    then show ?thesis using dm download_month_cases[OF ne fails] by simp
  next
    case other
    then show ?thesis using dm download_month_other_status[OF ne other] by simp
  next
    case ok
    then show ?thesis using dm download_month_complete[OF ne ok]
      by (auto simp: file_exists_def path_exists_write_chunks path_exists_open_wb)
  qed
  then show "requests s1 = requests s @ [?u]" by simp
  show "download_month rm d s1 m = (s1, Some True)"
    using s1 by (simp add: download_month_present)
qed

lemma download_loop_eq:
  "download_loop rm d ms s acc =
     (foldl (\<lambda>s m. fst (download_month rm d s m)) s ms, acc @ ms)"
  by (induction ms arbitrary: s acc) simp_all

text \<open>
  Claim C7. \<^verbatim>\<open>download_all_available\<close> returns the months 1 up to the current month when
  the configured year is the current year, and 1 up to 12 otherwise, whatever the remote
  answers for each month; the state it leaves is the one reached by calling
  \<^verbatim>\<open>download_month\<close> on these months in ascending order.
\<close>

theorem download_all_available_months:
  "download_all_available rm now d s =
     (foldl (\<lambda>s m. fst (download_month rm d s m)) s
        [1..(if year d = now_year now then now_month now else 12)],
      [1..(if year d = now_year now then now_month now else 12)])"
  by (simp add: download_all_available_def download_loop_eq Let_def)


lemma name_2025_03:
  "get_file_name (new_downloader ''http://x'' ''raw'' 2025) 3 = ''yellow_tripdata_2025-03.parquet''"
  by (simp add: get_file_name_def new_downloader_def str_int_def fmt_02d_def digits.simps)

theorem download_month_failure_cleanup_witness:
  "download_month \<lparr>http_get = (\<lambda>u. Reply 200 [Chunk ''ab'', Fail RequestException]),
                    open_ok = (\<lambda>p. True)\<rparr>
     (new_downloader ''http://x'' ''raw'' 2025) \<lparr>disk = [], requests = []\<rparr> 3
   = (\<lparr>disk = [], requests = [''http://x/yellow_tripdata_2025-03.parquet'']\<rparr>, Some False) \<and>
   fetch_fails \<lparr>http_get = (\<lambda>u. Reply 200 [Chunk ''ab'', Fail RequestException]),
                 open_ok = (\<lambda>p. True)\<rparr> (new_downloader ''http://x'' ''raw'' 2025) 3 \<and>
   \<not> truthy (Some False) \<and>
   \<not> file_exists (new_downloader ''http://x'' ''raw'' 2025) [] 3 \<and>
   download_month \<lparr>http_get = (\<lambda>u. Reply 200 [Chunk ''ab'', Chunk ''c'']), open_ok = (\<lambda>p. True)\<rparr>
     (new_downloader ''http://x'' ''raw'' 2025) \<lparr>disk = [], requests = []\<rparr> 3
   = (\<lparr>disk = [(''raw/yellow_tripdata_2025-03.parquet'', ''abc'')],
       requests = [''http://x/yellow_tripdata_2025-03.parquet'']\<rparr>, Some True) \<and>
   file_exists (new_downloader ''http://x'' ''raw'' 2025)
     [(''raw/yellow_tripdata_2025-03.parquet'', ''abc'')] 3 \<and>
   read_bytes [(''raw/yellow_tripdata_2025-03.parquet'', ''abc'')]
     (get_file_path (new_downloader ''http://x'' ''raw'' 2025) 3) = Some ''abc''"
proof -
  let ?d = "new_downloader ''http://x'' ''raw'' 2025"
  let ?s = "\<lparr>disk = [], requests = []\<rparr>"
  let ?bad = "\<lparr>http_get = (\<lambda>u. Reply 200 [Chunk ''ab'', Fail RequestException]),
               open_ok = (\<lambda>p. True)\<rparr>"
  let ?good = "\<lparr>http_get = (\<lambda>u. Reply 200 [Chunk ''ab'', Chunk ''c'']), open_ok = (\<lambda>p. True)\<rparr>"
  have ne: "\<not> file_exists ?d [] 3" by (simp add: file_exists_def path_exists_def)
  have ff: "fetch_fails ?bad ?d 3" by (simp add: fetch_fails_def stream_fails_def)
  have h1: "download_month ?bad ?d ?s 3
      = (\<lparr>disk = [], requests = [''http://x/yellow_tripdata_2025-03.parquet'']\<rparr>, Some False)"
    by (simp add: download_month_def file_exists_def path_exists_def get_file_path_def
        name_2025_03 Let_def open_wb_def unlink_def write_bytes_def cleanup_def)
      (simp add: new_downloader_def)
  have h2: "download_month ?good ?d ?s 3
      = (\<lparr>disk = [(''raw/yellow_tripdata_2025-03.parquet'', ''abc'')],
          requests = [''http://x/yellow_tripdata_2025-03.parquet'']\<rparr>, Some True)"
    by (simp add: download_month_def file_exists_def path_exists_def get_file_path_def
        name_2025_03 Let_def open_wb_def unlink_def write_bytes_def cleanup_def)
      (simp add: new_downloader_def)
  have ex: "file_exists ?d [(''raw/yellow_tripdata_2025-03.parquet'', ''abc'')] 3"
    by (simp add: file_exists_def path_exists_def get_file_path_def name_2025_03)
      (simp add: new_downloader_def)
  show ?thesis
    using download_month_failure_cleanup[OF h1] download_month_failure_cleanup[OF h2]
      ne ff h1 h2 ex
    by (simp add: truthy_def)
qed


theorem download_month_idempotent_witness:
  "file_exists (new_downloader ''http://x'' ''raw'' 2025)
     (disk \<lparr>disk = [(''raw/yellow_tripdata_2025-03.parquet'', ''abc'')], requests = []\<rparr>) 3 \<and>
   download_month \<lparr>http_get = (\<lambda>u. NoReply), open_ok = (\<lambda>p. False)\<rparr>
     (new_downloader ''http://x'' ''raw'' 2025)
     \<lparr>disk = [(''raw/yellow_tripdata_2025-03.parquet'', ''abc'')], requests = []\<rparr> 3
   = (\<lparr>disk = [(''raw/yellow_tripdata_2025-03.parquet'', ''abc'')], requests = []\<rparr>, Some True) \<and>
   \<not> file_exists (new_downloader ''http://x'' ''raw'' 2025) (disk \<lparr>disk = [], requests = []\<rparr>) 3 \<and>
   download_month \<lparr>http_get = (\<lambda>u. Reply 200 [Chunk ''ab'', Chunk ''c'']), open_ok = (\<lambda>p. True)\<rparr>
     (new_downloader ''http://x'' ''raw'' 2025) \<lparr>disk = [], requests = []\<rparr> 3
   = (\<lparr>disk = [(''raw/yellow_tripdata_2025-03.parquet'', ''abc'')],
       requests = [''http://x/yellow_tripdata_2025-03.parquet'']\<rparr>, Some True) \<and>
   download_month \<lparr>http_get = (\<lambda>u. Reply 200 [Chunk ''ab'', Chunk ''c'']), open_ok = (\<lambda>p. True)\<rparr>
     (new_downloader ''http://x'' ''raw'' 2025)
     \<lparr>disk = [(''raw/yellow_tripdata_2025-03.parquet'', ''abc'')],
      requests = [''http://x/yellow_tripdata_2025-03.parquet'']\<rparr> 3
   = (\<lparr>disk = [(''raw/yellow_tripdata_2025-03.parquet'', ''abc'')],
       requests = [''http://x/yellow_tripdata_2025-03.parquet'']\<rparr>, Some True)"
proof -
  let ?d = "new_downloader ''http://x'' ''raw'' 2025"
  let ?s = "\<lparr>disk = [], requests = []\<rparr>"
  let ?s1 = "\<lparr>disk = [(''raw/yellow_tripdata_2025-03.parquet'', ''abc'')], requests = []\<rparr>"
  let ?s2 = "\<lparr>disk = [(''raw/yellow_tripdata_2025-03.parquet'', ''abc'')],
              requests = [''http://x/yellow_tripdata_2025-03.parquet'']\<rparr>"
  let ?good = "\<lparr>http_get = (\<lambda>u. Reply 200 [Chunk ''ab'', Chunk ''c'']), open_ok = (\<lambda>p. True)\<rparr>"
  let ?off = "\<lparr>http_get = (\<lambda>u. NoReply), open_ok = (\<lambda>p. False)\<rparr>"
  have ex: "file_exists ?d (disk ?s1) 3"
    by (simp add: file_exists_def path_exists_def get_file_path_def name_2025_03)
      (simp add: new_downloader_def)
  have ne: "\<not> file_exists ?d (disk ?s) 3" by (simp add: file_exists_def path_exists_def)
  have bu: "base_url ?d = ''http://x''" by (simp add: new_downloader_def)
  have h: "download_month ?good ?d ?s 3 = (?s2, Some True)"
    by (simp add: download_month_def file_exists_def path_exists_def get_file_path_def
        name_2025_03 Let_def open_wb_def unlink_def write_bytes_def cleanup_def)
      (simp add: new_downloader_def)
  show ?thesis
    using download_month_idempotent[of ?d ?s1 3 ?off ?s1]
      download_month_idempotent[of ?d ?s 3 ?good ?s2] ex ne h bu
    by (simp add: name_2025_03)
qed

theorem download_all_available_months_witness:
  "snd (download_all_available \<lparr>http_get = (\<lambda>u. NoReply), open_ok = (\<lambda>p. False)\<rparr>
          \<lparr>now_year = 2025, now_month = 3\<rparr> (new_downloader ''http://x'' ''raw'' 2025)
          \<lparr>disk = [], requests = []\<rparr>) = [1, 2, 3] \<and>
   snd (download_all_available \<lparr>http_get = (\<lambda>u. NoReply), open_ok = (\<lambda>p. False)\<rparr>
          \<lparr>now_year = 2025, now_month = 3\<rparr> (new_downloader ''http://x'' ''raw'' 2024)
          \<lparr>disk = [], requests = []\<rparr>) = [1, 2, 3, 4, 5, 6, 7, 8, 9, 10, 11, 12]"
  using download_all_available_months[of "\<lparr>http_get = (\<lambda>u. NoReply), open_ok = (\<lambda>p. False)\<rparr>"
          "\<lparr>now_year = 2025, now_month = 3\<rparr>" "new_downloader ''http://x'' ''raw'' 2025"
          "\<lparr>disk = [], requests = []\<rparr>"]
    download_all_available_months[of "\<lparr>http_get = (\<lambda>u. NoReply), open_ok = (\<lambda>p. False)\<rparr>"
          "\<lparr>now_year = 2025, now_month = 3\<rparr>" "new_downloader ''http://x'' ''raw'' 2024"
          "\<lparr>disk = [], requests = []\<rparr>"]
  by (simp add: new_downloader_def upto.simps)

section \<open>The example inputs, evaluated\<close>

lemma glob_jan: "sort (glob_parquet jan_only ''/app/data/raw'') = [jan_path]"
  by (simp add: glob_parquet_def jan_only_def jan_path_def path_name_def endswith_def)

lemma name_jan: "path_name jan_path = ''yellow_tripdata_2025-01.parquet''"
  by (simp add: jan_path_def path_name_def)

lemma clean_jan:
  "clean_df fair_env jan_only jan_path =
     Inr \<lparr>df_columns = [''vendor_id'', ''tpep_pickup_datetime'', ''tpep_dropoff_datetime''],
          df_rows = [stored_trip]\<rparr>"
  by (simp add: clean_df_def read_parquet_def read_bytes_def jan_only_def fair_env_def one_trip_def
      rename_def rename_column_def column_mapping_def dropna_def cell_of_def localize_cell_def
      set_cell_def stored_trip_def)

lemma import_jan:
  "import_parquet_copy fair_env jan_only db jan_path =
     (db\<lparr>yellow_taxi_trips := yellow_taxi_trips db @ [stored_trip]\<rparr>, Some 1)"
  by (simp add: import_parquet_copy_def clean_jan df_empty_def target_cols_def project_def
      copy_expert_def name_jan Let_def)
    (simp add: fair_env_def stored_trip_def cell_of_def)

lemma log_jan_fresh:
  "log_import fair_env \<lparr>yellow_taxi_trips = ts, import_log = []\<rparr> (path_name jan_path) n =
     Inr \<lparr>yellow_taxi_trips = ts, import_log = [(''yellow_tripdata_2025-01.parquet'', n)]\<rparr>"
  by (simp add: log_import_def name_jan) (simp add: fair_env_def)

lemma log_jan_again:
  "log_import fair_env
     \<lparr>yellow_taxi_trips = ts, import_log = [(''yellow_tripdata_2025-01.parquet'', k)]\<rparr>
     (path_name jan_path) n = Inl IntegrityError"
  by (simp add: log_import_def name_jan) (simp add: fair_env_def)

lemma main_jan_first:
  "import_to_postgres_main fair_env ''/app'' jan_only \<lparr>yellow_taxi_trips = [], import_log = []\<rparr> =
     (\<lparr>yellow_taxi_trips = [stored_trip],
        import_log = [(''yellow_tripdata_2025-01.parquet'', 1)]\<rparr>,
      Some [(''files_imported'', 1), (''total_rows'', 1)])"
  by (simp add: import_to_postgres_main_def init_db_def glob_jan import_jan log_jan_fresh)

lemma main_jan_second:
  "import_to_postgres_main fair_env ''/app'' jan_only
     \<lparr>yellow_taxi_trips = [stored_trip],
      import_log = [(''yellow_tripdata_2025-01.parquet'', 1)]\<rparr> =
     (\<lparr>yellow_taxi_trips = [stored_trip, stored_trip],
        import_log = [(''yellow_tripdata_2025-01.parquet'', 1)]\<rparr>,
      Some [(''files_imported'', 0), (''total_rows'', 0)])"
  by (simp add: import_to_postgres_main_def init_db_def glob_jan import_jan log_jan_again)

section \<open>Properties of the DuckDB importer\<close>

lemma import_parquet_skip:
  "is_file_imported conn (path_name p) \<Longrightarrow> import_parquet ev fs conn p = (conn, True)"
  by (simp add: import_parquet_def)

lemma rollback_idle: "txn conn = None \<Longrightarrow> rollback (conn\<lparr>txn := t\<rparr>) = conn"
  by (cases conn) (simp add: rollback_def)

lemma is_file_imported_iff:
  "is_file_imported conn n = (n \<in> set (map fst (duck_log (view conn))))"
  by (induction "duck_log (view conn)" arbitrary: conn)
     (auto simp: is_file_imported_def filter_empty_conv)

lemma import_parquet_outcome:
  assumes "txn conn = None"
  shows "import_parquet ev fs conn p = (conn, True) \<and> is_file_imported conn (path_name p)
       \<or> import_parquet ev fs conn p = (conn, False) \<and> \<not> is_file_imported conn (path_name p)
       \<or> (\<exists>rs. import_parquet ev fs conn p =
              (conn\<lparr>committed := (committed conn)\<lparr>
                  duck_trips := duck_trips (committed conn) @ rs,
                  duck_log := duck_log (committed conn) @ [(path_name p, int (length rs))]\<rparr>\<rparr>, True)
            \<and> \<not> is_file_imported conn (path_name p)
            \<and> insert_from_parquet ev fs p (conn\<lparr>txn := Some (committed conn)\<rparr>) =
                Inr (conn\<lparr>txn := Some ((committed conn)\<lparr>duck_trips := duck_trips (committed conn) @ rs\<rparr>)\<rparr>))"
proof (cases "is_file_imported conn (path_name p)")
  case True
  then show ?thesis by (simp add: import_parquet_skip)
next
  case False
  let ?c1 = "conn\<lparr>txn := Some (committed conn)\<rparr>"
  have b: "begin_txn conn = Inr ?c1" using assms by (simp add: begin_txn_def)
  show ?thesis
  proof (cases "insert_from_parquet ev fs p ?c1")
    case (Inl e)
    then show ?thesis using False b assms
      by (simp add: import_parquet_def Let_def rollback_idle)
  next
    case (Inr c2)
    then obtain rs where c2: "c2 = conn\<lparr>txn := Some ((committed conn)\<lparr>duck_trips := duck_trips (committed conn) @ rs\<rparr>)\<rparr>"
      by (auto simp: insert_from_parquet_def execute_def Let_def split: if_splits sum.splits)
    show ?thesis
    proof (cases "insert_log ev (path_name p) (int (length rs)) c2")
      case (Inl e)
      then show ?thesis using False b assms Inr c2
        by (simp add: import_parquet_def Let_def rollback_idle view_def)
    next
      case il: (Inr c3)
      then have c3: "c3 = conn\<lparr>txn := Some ((committed conn)\<lparr>duck_trips := duck_trips (committed conn) @ rs,
          duck_log := duck_log (committed conn) @ [(path_name p, int (length rs))]\<rparr>)\<rparr>"
        using c2 by (auto simp: insert_log_def execute_def view_def split: if_splits)
      show ?thesis
      proof (cases "commit ev (path_name p) c3")
        case (Inl e)
        then show ?thesis using False b assms Inr c2 il c3
          by (simp add: import_parquet_def Let_def rollback_idle view_def)
      next
        case cm: (Inr c4)
        then have "c4 = conn\<lparr>committed := (committed conn)\<lparr>duck_trips := duck_trips (committed conn) @ rs,
          duck_log := duck_log (committed conn) @ [(path_name p, int (length rs))]\<rparr>\<rparr>"
          using c3 assms by (cases conn) (auto simp: commit_def split: if_splits)
        then have res: "import_parquet ev fs conn p =
            (conn\<lparr>committed := (committed conn)\<lparr>duck_trips := duck_trips (committed conn) @ rs,
              duck_log := duck_log (committed conn) @ [(path_name p, int (length rs))]\<rparr>\<rparr>, True)"
          using False b assms Inr c2 il c3 cm
          by (simp add: import_parquet_def Let_def view_def)
        have ins: "insert_from_parquet ev fs p ?c1 =
            Inr (conn\<lparr>txn := Some ((committed conn)\<lparr>duck_trips := duck_trips (committed conn) @ rs\<rparr>)\<rparr>)"
          using Inr c2 by simp
        show ?thesis using res False ins by blast
      qed
    qed
  qed
qed



lemma import_parquet_idle:
  "txn conn = None \<Longrightarrow> txn (fst (import_parquet ev fs conn p)) = None"
  using import_parquet_outcome[of conn ev fs p] by auto

lemma import_parquet_keeps_logged:
  assumes "txn conn = None" and "is_file_imported conn n"
  shows "is_file_imported (fst (import_parquet ev fs conn p)) n"
  using import_parquet_outcome[OF assms(1), of ev fs p] assms
  by (auto simp: is_file_imported_iff view_def)

lemma import_all_loop_skipped:
  "\<forall>p \<in> set files. is_file_imported conn (path_name p) \<Longrightarrow>
     import_all_loop ev fs files conn k = (conn, k + int (length files))"
  by (induction files arbitrary: k) (simp_all add: import_parquet_skip)

lemma filter_length_mono:
  "(\<And>x. x \<in> set xs \<Longrightarrow> P x \<Longrightarrow> Q x) \<Longrightarrow> length (filter P xs) \<le> length (filter Q xs)"
  by (induction xs) auto

lemma import_all_loop_lower:
  "txn conn = None \<Longrightarrow>
     k + int (length (filter (\<lambda>p. is_file_imported conn (path_name p)) files))
       \<le> snd (import_all_loop ev fs files conn k)"
proof (induction files arbitrary: conn k)
  case Nil
  then show ?case by simp
next
  case (Cons p files)
  let ?r = "import_parquet ev fs conn p"
  have idle: "txn (fst ?r) = None" using Cons.prems by (rule import_parquet_idle)
  have mono: "length (filter (\<lambda>q. is_file_imported conn (path_name q)) files)
        \<le> length (filter (\<lambda>q. is_file_imported (fst ?r) (path_name q)) files)"
    by (rule filter_length_mono) (simp add: import_parquet_keeps_logged[OF Cons.prems])
  show ?case
  proof (cases "snd ?r")
    case True
    then have r: "?r = (fst ?r, True)" by (cases ?r) simp
    have "import_all_loop ev fs (p # files) conn k = import_all_loop ev fs files (fst ?r) (k + 1)"
      by (subst import_all_loop.simps, subst r) simp
    then show ?thesis using Cons.IH[OF idle, of "k + 1"] mono by simp
  next
    case False
    then have r: "?r = (fst ?r, False)" by (cases ?r) simp
    have nl: "\<not> is_file_imported conn (path_name p)"
      using False import_parquet_skip[of conn p ev fs] by auto
    have "import_all_loop ev fs (p # files) conn k = import_all_loop ev fs files (fst ?r) k"
      by (subst import_all_loop.simps, subst r) simp
    then show ?thesis using Cons.IH[OF idle, of k] mono nl by simp
  qed
qed

text \<open>
  Claim C10. \<^verbatim>\<open>DuckDBImporter.import_parquet\<close> on a file whose name is in the ledger
  returns True and the connection, hence both tables, is what it was. When every Parquet
  file of the directory is in the ledger \<^verbatim>\<open>import_all_parquet\<close> returns the number of
  files and changes nothing; in general the count it returns is at least the number of
  files that were in the ledger already: skipped files are counted.
\<close>

theorem import_parquet_skips_logged:
  "(is_file_imported conn (path_name p) \<longrightarrow> import_parquet ev fs conn p = (conn, True)) \<and>
   ((\<forall>p \<in> set (glob_parquet fs dir). is_file_imported conn (path_name p)) \<longrightarrow>
      import_all_parquet ev fs conn dir = (conn, int (length (glob_parquet fs dir)))) \<and>
   (txn conn = None \<longrightarrow>
      int (length (filter (\<lambda>p. is_file_imported conn (path_name p)) (glob_parquet fs dir)))
        \<le> snd (import_all_parquet ev fs conn dir))"
proof (intro conjI impI)
  assume "is_file_imported conn (path_name p)"
  then show "import_parquet ev fs conn p = (conn, True)" by (rule import_parquet_skip)
next
  assume "\<forall>p \<in> set (glob_parquet fs dir). is_file_imported conn (path_name p)"
  then have "\<forall>p \<in> set (sort (glob_parquet fs dir)). is_file_imported conn (path_name p)" by simp
  then show "import_all_parquet ev fs conn dir = (conn, int (length (glob_parquet fs dir)))"
    by (simp add: import_all_parquet_def import_all_loop_skipped)
next
  assume idle: "txn conn = None"
  have "length (filter (\<lambda>p. is_file_imported conn (path_name p)) (sort (glob_parquet fs dir)))
      = length (filter (\<lambda>p. is_file_imported conn (path_name p)) (glob_parquet fs dir))"
    by (simp add: filter_sort)
  then show "int (length (filter (\<lambda>p. is_file_imported conn (path_name p)) (glob_parquet fs dir)))
        \<le> snd (import_all_parquet ev fs conn dir)"
    using import_all_loop_lower[OF idle, of 0 "sort (glob_parquet fs dir)" ev fs]
    by (simp add: import_all_parquet_def)
qed

theorem import_parquet_skips_logged_witness:
  "is_file_imported
     (new_importer \<lparr>duck_trips = [], duck_log = [(''yellow_tripdata_2025-01.parquet'', 1)]\<rparr>)
     (path_name jan_path) \<and>
   import_parquet fair_env jan_only
     (new_importer \<lparr>duck_trips = [], duck_log = [(''yellow_tripdata_2025-01.parquet'', 1)]\<rparr>)
     jan_path =
     (new_importer \<lparr>duck_trips = [], duck_log = [(''yellow_tripdata_2025-01.parquet'', 1)]\<rparr>, True) \<and>
   glob_parquet jan_only ''/app/data/raw'' = [jan_path] \<and>
   import_all_parquet fair_env jan_only
     (new_importer \<lparr>duck_trips = [], duck_log = [(''yellow_tripdata_2025-01.parquet'', 1)]\<rparr>)
     ''/app/data/raw'' =
     (new_importer \<lparr>duck_trips = [], duck_log = [(''yellow_tripdata_2025-01.parquet'', 1)]\<rparr>, 1) \<and>
   txn (new_importer \<lparr>duck_trips = [], duck_log = [(''yellow_tripdata_2025-01.parquet'', 1)]\<rparr>) = None"
proof -
  let ?c = "new_importer \<lparr>duck_trips = [], duck_log = [(''yellow_tripdata_2025-01.parquet'', 1)]\<rparr>"
  have g: "glob_parquet jan_only ''/app/data/raw'' = [jan_path]"
    by (simp add: glob_parquet_def jan_only_def jan_path_def path_name_def endswith_def)
  have l: "is_file_imported ?c (path_name jan_path)"
    by (simp add: is_file_imported_def new_importer_def view_def name_jan)
  have i: "txn ?c = None" by (simp add: new_importer_def)
  show ?thesis
    using import_parquet_skips_logged[of ?c jan_path fair_env jan_only "''/app/data/raw''"] g l i
    by simp
qed

section \<open>Repeated imports and the pipeline service\<close>

text \<open>
  Claim C1. The claim asks that a second import of a file find the ledger entry and insert
  nothing. \<^verbatim>\<open>import_parquet_copy\<close> never looks the file up in the ledger: here
  \<^verbatim>\<open>main\<close> is run twice on a directory that holds one file of one trip. The first run
  stores the trip and logs the file. The second run stores the trip again, so the trip
  table holds it twice; the ledger insert then breaks the primary key, the exception is
  caught and the file is not counted.
\<close>

theorem import_twice_duplicates_trips:
  "import_to_postgres_main fair_env ''/app'' jan_only
     (fst (import_to_postgres_main fair_env ''/app'' jan_only
             \<lparr>yellow_taxi_trips = [], import_log = []\<rparr>)) =
     (\<lparr>yellow_taxi_trips = [stored_trip, stored_trip],
        import_log = [(''yellow_tripdata_2025-01.parquet'', 1)]\<rparr>,
      Some [(''files_imported'', 0), (''total_rows'', 0)])"
  by (simp add: main_jan_first main_jan_second)

lemma new_PipelineResponse_None: "new_PipelineResponse ''done'' PyNone f r = Inl ValidationError"
  by (simp add: new_PipelineResponse_def validate_int_def)

lemma subscript_main:
  "snd (import_to_postgres_main ev cwd fs db) = Some kv \<Longrightarrow>
     (\<exists>f. subscript (Some kv) ''files_imported'' = Inr f) \<and>
     (\<exists>r. subscript (Some kv) ''total_rows'' = Inr r)"
  by (auto simp: import_to_postgres_main_def Let_def subscript_def split: if_splits prod.splits)

lemma main_None_iff:
  "(snd (import_to_postgres_main ev cwd fs db) = None) =
     (sort (glob_parquet fs (cwd @ ''/data/raw'')) = [])"
  by (auto simp: import_to_postgres_main_def Let_def split: if_splits prod.splits)

text \<open>
  Claim C3. The claim asks that \<^verbatim>\<open>run_pipeline\<close> return a response with the downloaded
  count. \<^verbatim>\<open>main\<close> of download\_data.py returns nothing, so the response is built with
  \<^verbatim>\<open>None\<close> for that count and its validation raises; when the directory holds no
  Parquet file \<^verbatim>\<open>main\<close> of import\_to\_postgres.py returns \<^verbatim>\<open>None\<close> as well and the
  subscript raises first. Every run of \<^verbatim>\<open>run_pipeline\<close> ends in one of the two
  exceptions.
\<close>

theorem run_pipeline_raises:
  "snd (run_pipeline ev rm now cwd w) =
     (if sort (glob_parquet (disk (fst (download_data_main rm now cwd (fst w))))
                 (cwd @ ''/data/raw'')) = []
      then Inl TypeError else Inl ValidationError)"
proof -
  let ?dl = "download_data_main rm now cwd (fst w)"
  let ?im = "import_to_postgres_main ev cwd (disk (fst ?dl)) (init_db (snd w))"
  have none: "snd ?dl = PyNone" by (simp add: download_data_main_def Let_def)
  show ?thesis
  proof (cases "snd ?im")
    case None
    then have "sort (glob_parquet (disk (fst ?dl)) (cwd @ ''/data/raw'')) = []"
      by (simp add: main_None_iff)
    then show ?thesis using None by (simp add: run_pipeline_def Let_def subscript_def)
  next
    case (Some kv)
    then have ne: "sort (glob_parquet (disk (fst ?dl)) (cwd @ ''/data/raw'')) \<noteq> []"
      using main_None_iff[of ev cwd "disk (fst ?dl)" "init_db (snd w)"] by simp
    obtain f r where "subscript (Some kv) ''files_imported'' = Inr f"
      "subscript (Some kv) ''total_rows'' = Inr r"
      using subscript_main[OF Some] by blast
    then show ?thesis using Some ne none
      by (simp add: run_pipeline_def Let_def new_PipelineResponse_None)
  qed
qed

theorem run_pipeline_raises_witness:
  "snd (run_pipeline fair_env \<lparr>http_get = (\<lambda>u. NoReply), open_ok = (\<lambda>p. False)\<rparr>
          \<lparr>now_year = 2025, now_month = 1\<rparr> ''/app''
          (\<lparr>disk = jan_only, requests = []\<rparr>, \<lparr>yellow_taxi_trips = [], import_log = []\<rparr>)) =
     Inl ValidationError \<and>
   snd (run_pipeline fair_env \<lparr>http_get = (\<lambda>u. NoReply), open_ok = (\<lambda>p. False)\<rparr>
          \<lparr>now_year = 2025, now_month = 1\<rparr> ''/app''
          (\<lparr>disk = [], requests = []\<rparr>, \<lparr>yellow_taxi_trips = [], import_log = []\<rparr>)) =
     Inl TypeError"
proof -
  let ?rm = "\<lparr>http_get = (\<lambda>u. NoReply), open_ok = (\<lambda>p. False)\<rparr>"
  let ?now = "\<lparr>now_year = 2025, now_month = 1\<rparr>"
  have nm: "get_file_path (new_downloader b ''/app/data/raw'' 2025) 1 = jan_path" for b
    by (simp add: get_file_path_def get_file_name_def new_downloader_def str_int_def fmt_02d_def
        digits.simps jan_path_def)
  have yr: "year (new_downloader b d y) = y" for b d y by (simp add: new_downloader_def)
  have d1: "disk (fst (download_data_main ?rm ?now ''/app'' \<lparr>disk = jan_only, requests = []\<rparr>)) = jan_only"
    by (simp add: download_data_main_def download_all_available_def download_month_def
        file_exists_def nm yr Let_def)
      (simp add: path_exists_def jan_only_def)
  have d2: "disk (fst (download_data_main ?rm ?now ''/app'' \<lparr>disk = [], requests = []\<rparr>)) = []"
    by (simp add: download_data_main_def download_all_available_def download_month_def
        file_exists_def nm yr Let_def path_exists_def cleanup_def)
  show ?thesis
    using run_pipeline_raises[of fair_env ?rm ?now "''/app''"
        "(\<lparr>disk = jan_only, requests = []\<rparr>, \<lparr>yellow_taxi_trips = [], import_log = []\<rparr>)"]
      run_pipeline_raises[of fair_env ?rm ?now "''/app''"
        "(\<lparr>disk = [], requests = []\<rparr>, \<lparr>yellow_taxi_trips = [], import_log = []\<rparr>)"]
    by (simp add: d1 d2 glob_jan) (simp add: glob_parquet_def)
qed

section \<open>Properties of the Postgres importer\<close>





lemma import_parquet_copy_load_error:
  "clean_df ev fs p = Inr df \<Longrightarrow> \<not> df_empty df \<Longrightarrow>
   fault ev Copy (path_name p) \<or>
     \<not> list_all (accepts ev)
         (df_rows (project (filter (\<lambda>c. c \<in> set (df_columns df)) target_cols) df)) \<Longrightarrow>
   import_parquet_copy ev fs db p = (db, None)"
  by (auto simp: import_parquet_copy_def copy_expert_def Let_def)

lemma log_import_error:
  "log_import ev db n k = Inl e \<Longrightarrow>
     fault ev LogInsert n \<or> n \<in> set (map fst (import_log db))"
  by (auto simp: log_import_def split: if_splits)




section \<open>What a failed import leaves behind\<close>




section \<open>Timestamps of stored trips\<close>

lemma map_of_set_cell:
  "map_of (set_cell c v r) c' =
     (if c' = c then (case map_of r c of None \<Rightarrow> None | Some x \<Rightarrow> Some v) else map_of r c')"
  by (induction r) (auto simp: set_cell_def)

lemma localize_cell_Null: "localize_cell ev Null = Inr v \<Longrightarrow> v = Null"
  by (simp add: localize_cell_def)

lemma localize_cell_not_Null: "localize_cell ev x = Inr v \<Longrightarrow> x \<noteq> Null \<Longrightarrow> v \<noteq> Null"
  by (auto simp: localize_cell_def split: cell.splits if_splits)

lemma cell_of_set_cell:
  "localize_cell ev (cell_of r c) = Inr v \<Longrightarrow>
     cell_of (set_cell c v r) c' = (if c' = c then v else cell_of r c')"
  by (auto simp: cell_of_def map_of_set_cell localize_cell_def split: option.splits)

lemma set_cell_has_timestamps:
  assumes "localize_cell ev (cell_of r c) = Inr v" and "has_timestamps r"
  shows "has_timestamps (set_cell c v r)"
  using assms localize_cell_not_Null[OF assms(1)]
  by (auto simp: has_timestamps_def cell_of_set_cell[OF assms(1)])

lemma tz_localize_has_timestamps:
  "tz_localize ev c rs = Inr rs' \<Longrightarrow> \<forall>r \<in> set rs. has_timestamps r \<Longrightarrow>
     \<forall>r \<in> set rs'. has_timestamps r"
proof (induction rs arbitrary: rs')
  case Nil
  then show ?case by simp
next
  case (Cons r rs)
  then show ?case
    by (auto split: sum.splits simp: set_cell_has_timestamps)
qed

lemma tz_localize_length: "tz_localize ev c rs = Inr rs' \<Longrightarrow> length rs' = length rs"
  by (induction rs arbitrary: rs') (auto split: sum.splits)

lemma dropna_timestamps:
  "dropna [''tpep_pickup_datetime'', ''tpep_dropoff_datetime''] df = Inr df1 \<Longrightarrow>
     df_rows df1 = filter has_timestamps (df_rows df) \<and> df_columns df1 = df_columns df \<and>
     ''tpep_pickup_datetime'' \<in> set (df_columns df) \<and>
     ''tpep_dropoff_datetime'' \<in> set (df_columns df)"
  by (auto simp: dropna_def has_timestamps_def[abs_def] split: if_splits)

lemma clean_df_result:
  assumes "clean_df ev fs p = Inr df"
  shows "\<exists>df0. read_parquet ev fs p = Inr df0 \<and>
           df_columns df = df_columns (rename df0) \<and>
           length (df_rows df) = length (filter has_timestamps (df_rows (rename df0))) \<and>
           ''tpep_pickup_datetime'' \<in> set (df_columns df) \<and>
           ''tpep_dropoff_datetime'' \<in> set (df_columns df) \<and>
           (\<forall>r \<in> set (df_rows df). has_timestamps r)"
proof -
  from assms obtain df0 df1 rs1 rs2 where
    rd: "read_parquet ev fs p = Inr df0" and
    dn: "dropna [''tpep_pickup_datetime'', ''tpep_dropoff_datetime''] (rename df0) = Inr df1" and
    t1: "tz_localize ev ''tpep_pickup_datetime'' (df_rows df1) = Inr rs1" and
    t2: "tz_localize ev ''tpep_dropoff_datetime'' rs1 = Inr rs2" and
    df: "df = df1\<lparr>df_rows := rs2\<rparr>"
    by (auto simp: clean_df_def split: sum.splits)
  note d = dropna_timestamps[OF dn]
  have h0: "\<forall>r \<in> set (df_rows df1). has_timestamps r" using d by simp
  have h1: "\<forall>r \<in> set rs1. has_timestamps r" by (rule tz_localize_has_timestamps[OF t1 h0])
  have h2: "\<forall>r \<in> set rs2. has_timestamps r" by (rule tz_localize_has_timestamps[OF t2 h1])
  have len: "length rs2 = length (filter has_timestamps (df_rows (rename df0)))"
    using tz_localize_length[OF t1] tz_localize_length[OF t2] d by simp
  show ?thesis using rd d h2 len df by simp
qed

lemma cell_of_project_row:
  "cell_of (map (\<lambda>c. (c, cell_of r c)) cols) c' = (if c' \<in> set cols then cell_of r c' else Null)"
  by (induction cols) (auto simp: cell_of_def)

lemma project_has_timestamps:
  assumes "''tpep_pickup_datetime'' \<in> set (df_columns df)"
    and "''tpep_dropoff_datetime'' \<in> set (df_columns df)"
    and "\<forall>r \<in> set (df_rows df). has_timestamps r"
  shows "\<forall>r \<in> set (df_rows (project (filter (\<lambda>c. c \<in> set (df_columns df)) target_cols) df)).
           has_timestamps r"
proof -
  have "''tpep_pickup_datetime'' \<in> set target_cols" "''tpep_dropoff_datetime'' \<in> set target_cols"
    by (simp_all add: target_cols_def)
  then show ?thesis using assms
    by (auto simp: project_def has_timestamps_def cell_of_project_row)
qed

lemma import_parquet_copy_trips:
  "\<exists>rs. yellow_taxi_trips (fst (import_parquet_copy ev fs db p)) = yellow_taxi_trips db @ rs \<and>
        (\<forall>r \<in> set rs. has_timestamps r)"
proof (cases "clean_df ev fs p")
  case (Inl e)
  then show ?thesis by (simp add: import_parquet_copy_def)
next
  case (Inr df)
  note c = clean_df_result[OF Inr]
  have pr: "\<forall>r \<in> set (df_rows (project (filter (\<lambda>c. c \<in> set (df_columns df)) target_cols) df)).
           has_timestamps r"
    using c by (intro project_has_timestamps) auto
  show ?thesis using Inr pr
    by (auto simp: import_parquet_copy_def copy_expert_def Let_def)
qed

lemma import_parquet_copy_invariant:
  "\<forall>r \<in> set (yellow_taxi_trips db). has_timestamps r \<Longrightarrow>
     \<forall>r \<in> set (yellow_taxi_trips (fst (import_parquet_copy ev fs db p))). has_timestamps r"
  using import_parquet_copy_trips[of ev fs db p] by auto

lemma log_import_trips:
  "log_import ev db n k = Inr db' \<Longrightarrow> yellow_taxi_trips db' = yellow_taxi_trips db"
  by (auto simp: log_import_def split: if_splits)

lemma import_files_invariant:
  "\<forall>r \<in> set (yellow_taxi_trips db). has_timestamps r \<Longrightarrow>
     \<forall>r \<in> set (yellow_taxi_trips (fst (import_files ev fs files db t k))). has_timestamps r"
proof (induction files arbitrary: db t k)
  case Nil
  then show ?case by simp
next
  case (Cons p files)
  let ?r = "import_parquet_copy ev fs db p"
  have inv: "\<forall>r \<in> set (yellow_taxi_trips (fst ?r)). has_timestamps r"
    using Cons.prems by (rule import_parquet_copy_invariant)
  obtain db1 res where r: "?r = (db1, res)" by (cases ?r)
  then have inv1: "\<forall>r \<in> set (yellow_taxi_trips db1). has_timestamps r" using inv by simp
  show ?case
  proof (cases res)
    case None
    then show ?thesis using r Cons.IH[OF inv1] by simp
  next
    case (Some n)
    show ?thesis
    proof (cases "log_import ev db1 (path_name p) n")
      case (Inl e)
      then show ?thesis using r Some Cons.IH[OF inv1] by simp
    next
      case (Inr db2)
      then have "\<forall>r \<in> set (yellow_taxi_trips db2). has_timestamps r"
        using inv1 log_import_trips[OF Inr] by simp
      then show ?thesis using r Some Inr Cons.IH[of db2] Cons.IH[OF inv1] by simp
    qed
  qed
qed

lemma read_feb: "read_parquet fair_env [(feb_path, ''nopickup'')] feb_path = Inr no_pickup"
  by (simp add: read_parquet_def read_bytes_def fair_env_def)

lemma no_pickup_stored:
  "\<not> has_timestamps
       (zip duck_columns
          (map (cell_of [(''VendorID'', Num 2), (''tpep_dropoff_datetime'', Naive 30)])
             (map fst column_mapping)))"
  by (simp add: has_timestamps_def cell_of_def duck_columns_def column_mapping_def)

lemma import_feb:
  "import_parquet fair_env [(feb_path, ''nopickup'')]
     (new_importer \<lparr>duck_trips = [], duck_log = []\<rparr>) feb_path =
   (\<lparr>committed =
       \<lparr>duck_trips =
          [zip duck_columns
             (map (cell_of [(''VendorID'', Num 2), (''tpep_dropoff_datetime'', Naive 30)])
                (map fst column_mapping))],
        duck_log = [(path_name feb_path, 1)]\<rparr>,
      txn = None\<rparr>, True)"
proof -
  define row where
    "row = zip duck_columns
             (map (cell_of [(''VendorID'', Num 2), (''tpep_dropoff_datetime'', Naive 30)])
                (map fst column_mapping))"
  let ?fs = "[(feb_path, ''nopickup'')]"
  let ?e = "\<lparr>duck_trips = [], duck_log = []\<rparr>"
  let ?c1 = "\<lparr>committed = ?e, txn = Some ?e\<rparr>"
  let ?c2 = "\<lparr>committed = ?e, txn = Some \<lparr>duck_trips = [row], duck_log = []\<rparr>\<rparr>"
  let ?c3 = "\<lparr>committed = ?e,
              txn = Some \<lparr>duck_trips = [row], duck_log = [(path_name feb_path, 1)]\<rparr>\<rparr>"
  let ?c4 = "\<lparr>committed = \<lparr>duck_trips = [row], duck_log = [(path_name feb_path, 1)]\<rparr>,
              txn = None\<rparr>"
  have nf: "\<not> fault fair_env s f" for s f by (simp add: fair_env_def)
  have acc: "accepts fair_env r" for r by (simp add: fair_env_def)
  have len: "length (df_columns no_pickup) = length duck_columns"
    by (simp add: no_pickup_def column_mapping_def duck_columns_def)
  have rows: "map (\<lambda>r. zip duck_columns (map (cell_of r) (df_columns no_pickup))) (df_rows no_pickup)
      = [row]"
    unfolding row_def by (simp add: no_pickup_def)
  have nl: "\<not> is_file_imported (new_importer ?e) (path_name feb_path)"
    by (simp add: is_file_imported_def new_importer_def view_def)
  have b: "begin_txn (new_importer ?e) = Inr ?c1"
    by (simp add: begin_txn_def new_importer_def)
  have i: "insert_from_parquet fair_env ?fs feb_path ?c1 = Inr ?c2"
    unfolding insert_from_parquet_def Let_def
    by (simp add: nf read_feb len rows acc execute_def)
  have l: "insert_log fair_env (path_name feb_path) 1 ?c2 = Inr ?c3"
    by (simp add: insert_log_def nf view_def execute_def)
  have c: "commit fair_env (path_name feb_path) ?c3 = Inr ?c4"
    by (simp add: commit_def nf)
  have "import_parquet fair_env ?fs (new_importer ?e) feb_path = (?c4, True)"
    unfolding import_parquet_def Let_def
    by (simp add: nl b i view_def l c)
  then show ?thesis unfolding row_def .
qed

text \<open>
  Claim C4, counterexample. The claim asks that no import path store a row without a pickup
  timestamp. \<^verbatim>\<open>DuckDBImporter.import_parquet\<close> inserts \<^verbatim>\<open>SELECT *\<close> of the file with no
  filter, into a table whose timestamp columns accept nulls: a file whose only row has no
  pickup timestamp is imported with success and that row is in the trip table.
\<close>

theorem duckdb_stores_null_pickup:
  "snd (import_parquet fair_env [(feb_path, ''nopickup'')]
          (new_importer \<lparr>duck_trips = [], duck_log = []\<rparr>) feb_path) = True \<and>
   length (duck_trips (committed (fst (import_parquet fair_env [(feb_path, ''nopickup'')]
          (new_importer \<lparr>duck_trips = [], duck_log = []\<rparr>) feb_path)))) = 1 \<and>
   \<not> has_timestamps (hd (duck_trips (committed (fst (import_parquet fair_env
          [(feb_path, ''nopickup'')] (new_importer \<lparr>duck_trips = [], duck_log = []\<rparr>) feb_path)))))"
  unfolding import_feb using no_pickup_stored by simp

text \<open>
  Claim C4, as amended. Every trip row stored by the Postgres import path has a pickup and
  a dropoff timestamp: the frame that \<^verbatim>\<open>clean_df\<close> returns has only such rows, and as many
  rows as the renamed input has rows with both timestamps (rows are dropped, none is
  repaired or added); \<^verbatim>\<open>import_parquet_copy\<close> and \<^verbatim>\<open>main\<close> keep the invariant of the trip
  table. \<^verbatim>\<open>DuckDBImporter.import_parquet\<close> applies no transform and stores the rows of
  the file as they are.
\<close>

theorem postgres_trips_have_timestamps:
  "(clean_df ev fs p = Inr df \<longrightarrow> (\<forall>r \<in> set (df_rows df). has_timestamps r)) \<and>
   (read_parquet ev fs p = Inr df0 \<and> clean_df ev fs p = Inr df \<longrightarrow>
      length (df_rows df) = length (filter has_timestamps (df_rows (rename df0)))) \<and>
   ((\<forall>r \<in> set (yellow_taxi_trips db). has_timestamps r) \<longrightarrow>
      (\<forall>r \<in> set (yellow_taxi_trips (fst (import_parquet_copy ev fs db p))). has_timestamps r) \<and>
      (\<forall>r \<in> set (yellow_taxi_trips (fst (import_to_postgres_main ev cwd fs db))).
         has_timestamps r))"
proof (intro conjI impI)
  assume "clean_df ev fs p = Inr df"
  then show "\<forall>r \<in> set (df_rows df). has_timestamps r" using clean_df_result by blast
next
  assume "read_parquet ev fs p = Inr df0 \<and> clean_df ev fs p = Inr df"
  then show "length (df_rows df) = length (filter has_timestamps (df_rows (rename df0)))"
    using clean_df_result[of ev fs p df] by auto
next
  assume a: "\<forall>r \<in> set (yellow_taxi_trips db). has_timestamps r"
  then show "\<forall>r \<in> set (yellow_taxi_trips (fst (import_parquet_copy ev fs db p))). has_timestamps r"
    by (rule import_parquet_copy_invariant)
  show "\<forall>r \<in> set (yellow_taxi_trips (fst (import_to_postgres_main ev cwd fs db))). has_timestamps r"
    using import_files_invariant[OF a, of ev fs "sort (glob_parquet fs (cwd @ ''/data/raw''))" 0 0] a
    by (auto simp: import_to_postgres_main_def init_db_def Let_def split: prod.splits)
qed

theorem postgres_trips_have_timestamps_witness:
  "clean_df fair_env jan_only jan_path =
     Inr \<lparr>df_columns = [''vendor_id'', ''tpep_pickup_datetime'', ''tpep_dropoff_datetime''],
          df_rows = [stored_trip]\<rparr> \<and>
   read_parquet fair_env jan_only jan_path = Inr one_trip \<and>
   length (filter has_timestamps (df_rows (rename one_trip))) = 1 \<and>
   has_timestamps stored_trip \<and>
   yellow_taxi_trips (fst (import_parquet_copy fair_env jan_only
      \<lparr>yellow_taxi_trips = [stored_trip], import_log = []\<rparr> jan_path)) =
     [stored_trip, stored_trip] \<and>
   yellow_taxi_trips (fst (import_to_postgres_main fair_env ''/app'' jan_only
      \<lparr>yellow_taxi_trips = [], import_log = []\<rparr>)) = [stored_trip]"
proof -
  let ?df = "\<lparr>df_columns = [''vendor_id'', ''tpep_pickup_datetime'', ''tpep_dropoff_datetime''],
              df_rows = [stored_trip]\<rparr>"
  have rd: "read_parquet fair_env jan_only jan_path = Inr one_trip"
    by (simp add: read_parquet_def read_bytes_def jan_only_def fair_env_def)
  have h: "has_timestamps stored_trip"
    by (simp add: has_timestamps_def stored_trip_def cell_of_def)
  let ?db1 = "\<lparr>yellow_taxi_trips = [stored_trip], import_log = []\<rparr>"
  note T = postgres_trips_have_timestamps[where ev = fair_env and fs = jan_only and p = jan_path
        and df = ?df and ?df0.0 = one_trip and db = ?db1 and cwd = "''/app''"]
  have inv: "\<forall>r \<in> set (yellow_taxi_trips ?db1). has_timestamps r" using h by simp
  from T have "length (df_rows ?df) = length (filter has_timestamps (df_rows (rename one_trip)))"
    using rd clean_jan by blast
  then have len: "length (filter has_timestamps (df_rows (rename one_trip))) = 1" by simp
  from T inv have "\<forall>r \<in> set (yellow_taxi_trips (fst (import_parquet_copy fair_env jan_only
      ?db1 jan_path))). has_timestamps r" by blast
  have two: "yellow_taxi_trips (fst (import_parquet_copy fair_env jan_only ?db1 jan_path)) =
     [stored_trip, stored_trip]" by (simp add: import_jan)
  have one: "yellow_taxi_trips (fst (import_to_postgres_main fair_env ''/app'' jan_only
      \<lparr>yellow_taxi_trips = [], import_log = []\<rparr>)) = [stored_trip]" by (simp add: main_jan_first)
  show ?thesis using clean_jan rd len h two one by blast
qed

section \<open>Empty files and batches\<close>























end
